theory Spec2Isabelle
  imports Main
begin

section \<open>Weight lattices and weight spaces (sage/combinat/root_system/weight_space.py)\<close>

subsection \<open>Basis labels, errors, elements\<close>

text \<open>
  The labels of the basis of a weight space are the nodes of the Dynkin diagram, which
  are integers, and the Python string "delta". The source tells the two apart by
  \<^verbatim>\<open>i == "delta"\<close> (and, in its sorting key, by \<^verbatim>\<open>isinstance(x, str)\<close>); here the test is
  the case distinction on the constructor.
\<close>

datatype key = Node int | Delta

text \<open>
  The exceptions the module raises, named as the specification names them:
  \<^item> \<open>InvalidConfiguration\<close>: ValueError "extended weight lattices are only implemented
    for affine root systems";
  \<^item> \<open>InvalidKey i\<close>: ValueError "i is not in the index set";
  \<^item> \<open>UnsupportedOperation\<close>: ValueError "delta is only defined for affine weight spaces"
    and TypeError "No implemented map from the coweight space to the ambient space";
  \<^item> \<open>InvalidArgument\<close>: ValueError "... is not in the coroot space";
  \<^item> \<open>KeyError i\<close>: the KeyError of a lookup \<^verbatim>\<open>basis[i]\<close> in a family that has no entry i.
\<close>

datatype error =
    InvalidConfiguration
  | InvalidKey key
  | UnsupportedOperation
  | InvalidArgument
  | KeyError key

text \<open>
  An element of a combinatorial free module: its parent and its dictionary
  \<^verbatim>\<open>_monomial_coefficients\<close> from basis labels to coefficients, in insertion order.
  The base ring is the type \<open>'a\<close>.
\<close>

record ('p, 'a) element =
  parent :: 'p
  monomial_coefficients :: "(key \<times> 'a) list"

subsection \<open>The collaborators\<close>

text \<open>
  What the module reads from the root system and its Cartan type:
  \<^verbatim>\<open>index_set()\<close>, \<^verbatim>\<open>cartan_type().is_affine()\<close>, \<^verbatim>\<open>cartan_type().special_node()\<close>,
  \<^verbatim>\<open>dynkin_diagram().column(j)\<close> (the pairs (i, c) of column j of the Cartan matrix),
  \<^verbatim>\<open>dual_side\<close>, and the membership tests \<^verbatim>\<open>y in coroot_lattice()\<close> and
  \<^verbatim>\<open>y in coroot_space()\<close>. None of them is defined in this module; they are the fields
  of a record, and every theorem holds for all their values.
\<close>

record 'y root_system =
  index_set :: "int list"
  is_affine :: bool
  special_node :: int
  column :: "int \<Rightarrow> (int \<times> int) list"
  dual_side :: bool
  coroot_lattice :: "'y \<Rightarrow> bool"
  coroot_space :: "'y \<Rightarrow> bool"

text \<open>The attributes \<^verbatim>\<open>WeightSpace.__init__\<close> sets.\<close>

record 'y weight_space =
  root_system :: "'y root_system"
  extended :: bool
  basis_keys :: "key list"

text \<open>\<^verbatim>\<open>j in self.index_set()\<close>, for a label that may be the string "delta".\<close>

fun in_index_set :: "'y weight_space \<Rightarrow> key \<Rightarrow> bool" where
  "in_index_set P (Node n) = (n \<in> set (index_set (root_system P)))"
| "in_index_set P Delta = False"

subsection \<open>The free module operations the module calls\<close>

text \<open>
  Modelled from the spec: the generic free module (CombinatorialFreeModule) is not part
  of this module. The specification lists what it supplies: the zero element, monomial
  construction from a basis key, the linear-combination builder from (key, coefficient)
  pairs, sums, and the module homomorphism built from a function on basis keys
  (\<open>\<Sigma> coefficient_k * f(k)\<close> over the nonzero keys of the input). Dictionaries never
  store a zero coefficient after an arithmetic operation.
\<close>

definition coefficient_in :: "(key \<times> 'a::zero) list \<Rightarrow> key \<Rightarrow> 'a" where
  "coefficient_in d k = (case map_of d k of None \<Rightarrow> 0 | Some c \<Rightarrow> c)"

text \<open>\<^verbatim>\<open>x[k]\<close> and \<^verbatim>\<open>x.coefficient(k)\<close>: the coefficient at k, zero when k is absent.\<close>

definition coefficient :: "('p, 'a::zero) element \<Rightarrow> key \<Rightarrow> 'a" where
  "coefficient x k = coefficient_in (monomial_coefficients x) k"

fun add_term :: "key \<Rightarrow> 'a::plus \<Rightarrow> (key \<times> 'a) list \<Rightarrow> (key \<times> 'a) list" where
  "add_term k c [] = [(k, c)]"
| "add_term k c ((k', c') # d) =
     (if k = k' then (k', c' + c) # d else (k', c') # add_term k c d)"

definition remove_zeros :: "(key \<times> 'a::zero) list \<Rightarrow> (key \<times> 'a) list" where
  "remove_zeros d = filter (\<lambda>(k, c). c \<noteq> 0) d"

definition add_terms :: "(key \<times> 'a::plus) list \<Rightarrow> (key \<times> 'a) list \<Rightarrow> (key \<times> 'a) list" where
  "add_terms d ts = foldl (\<lambda>acc (k, c). add_term k c acc) d ts"

definition zero :: "'p \<Rightarrow> ('p, 'a) element" where
  "zero P = \<lparr>parent = P, monomial_coefficients = []\<rparr>"

definition monomial :: "'p \<Rightarrow> key \<Rightarrow> ('p, 'a::one) element" where
  "monomial P i = \<lparr>parent = P, monomial_coefficients = [(i, 1)]\<rparr>"

definition sum_of_terms :: "'p \<Rightarrow> (key \<times> 'a::{zero,plus}) list \<Rightarrow> ('p, 'a) element" where
  "sum_of_terms P ts = \<lparr>parent = P, monomial_coefficients = remove_zeros (add_terms [] ts)\<rparr>"

definition add :: "('p, 'a::{zero,plus}) element \<Rightarrow> ('p, 'a) element \<Rightarrow> ('p, 'a) element" where
  "add x y = \<lparr>parent = parent x,
     monomial_coefficients =
       remove_zeros (add_terms (monomial_coefficients x) (monomial_coefficients y))\<rparr>"

definition scale :: "'a::{zero,times} \<Rightarrow> ('p, 'a) element \<Rightarrow> ('p, 'a) element" where
  "scale c x = \<lparr>parent = parent x,
     monomial_coefficients = remove_zeros (map (\<lambda>(k, v). (k, c * v)) (monomial_coefficients x))\<rparr>"

text \<open>
  A module homomorphism given on the basis (\<^verbatim>\<open>module_morphism(on_basis, codomain)\<close>).
  The function on the basis may raise; applying the homomorphism then raises too.
\<close>

record ('d, 'c, 'a) module_morphism =
  domain :: 'd
  codomain :: 'c
  on_basis :: "key \<Rightarrow> error + ('c, 'a) element"

fun linear_extension ::
  "(key \<Rightarrow> error + ('c, 'a::{zero,plus,times}) element) \<Rightarrow> 'c \<Rightarrow> (key \<times> 'a) list
    \<Rightarrow> error + ('c, 'a) element" where
  "linear_extension f C [] = Inr (zero C)"
| "linear_extension f C ((k, c) # d) =
     (case f k of
        Inl e \<Rightarrow> Inl e
      | Inr v \<Rightarrow> (case linear_extension f C d of
                    Inl e \<Rightarrow> Inl e
                  | Inr r \<Rightarrow> Inr (add (scale c v) r)))"

definition apply_morphism ::
  "('d, 'c, 'a::{zero,plus,times}) module_morphism \<Rightarrow> ('d, 'a) element
    \<Rightarrow> error + ('c, 'a) element" where
  "apply_morphism m x = linear_extension (on_basis m) (codomain m) (monomial_coefficients x)"

subsection \<open>WeightSpace\<close>

text \<open>
  \<^verbatim>\<open>fundamental_weight(self, i)\<close>, lines 245-282. The cache of \<^verbatim>\<open>cached_method\<close> does
  not change what is returned.
\<close>

definition fundamental_weight ::
  "'y weight_space \<Rightarrow> key \<Rightarrow> error + ('y weight_space, 'a::one) element" where
  "fundamental_weight P i =
     (if i = Delta then
        (if \<not> is_affine (root_system P) then Inl UnsupportedOperation
         else if extended P then Inr (monomial P i)
         else Inr (zero P))
      else
        (if \<not> in_index_set P i then Inl (InvalidKey i)
         else Inr (monomial P i)))"

text \<open>
  \<^verbatim>\<open>__init__\<close>, lines 173-193: the check of \<^verbatim>\<open>extended\<close>, the basis keys and the
  attributes. The prefixes and the sorting key only serve printing.
\<close>

definition construct :: "'y root_system \<Rightarrow> bool \<Rightarrow> error + 'y weight_space" where
  "construct rs ext =
     (let keys0 = map Node (index_set rs) in
      if ext then
        (if \<not> is_affine rs then Inl InvalidConfiguration
         else Inr \<lparr>root_system = rs, extended = ext, basis_keys = keys0 @ [Delta]\<rparr>)
      else Inr \<lparr>root_system = rs, extended = ext, basis_keys = keys0\<rparr>)"

text \<open>
  \<^verbatim>\<open>__init__\<close> as a whole: lines 195-201 register, for an affine type and a space that is
  not extended, the quotient map from the extended space
  \<^verbatim>\<open>root_system.weight_space(base_ring, extended=True)\<close>, which is that constructor run
  with \<^verbatim>\<open>extended=True\<close>, where nothing is registered. The registration is the second
  component of the result.
\<close>

definition init ::
  "'y root_system \<Rightarrow> bool \<Rightarrow>
     error + ('y weight_space \<times>
              ('y weight_space, 'y weight_space, 'a::one) module_morphism option)" where
  "init rs ext =
     (case construct rs ext of
        Inl e \<Rightarrow> Inl e
      | Inr self \<Rightarrow>
          if is_affine rs \<and> \<not> ext then
            (case construct rs True of
               Inl e \<Rightarrow> Inl e
             | Inr extended_space \<Rightarrow>
                 Inr (self, Some \<lparr>domain = extended_space, codomain = self,
                                  on_basis = fundamental_weight self\<rparr>))
          else Inr (self, None))"

text \<open>\<^verbatim>\<open>_to_classical_on_basis(self, i)\<close>, lines 408-432; \<open>cl\<close> is \<^verbatim>\<open>self.classical()\<close>.\<close>

definition to_classical_on_basis ::
  "'y weight_space \<Rightarrow> 'c \<Rightarrow> key \<Rightarrow> ('c, 'a::one) element" where
  "to_classical_on_basis P cl i =
     (if i = Delta \<or> i = Node (special_node (root_system P)) then zero cl
      else monomial cl i)"

text \<open>
  \<^verbatim>\<open>simple_root(self, j)\<close>, lines 311-368. \<^verbatim>\<open>K(c)\<close> is the image of the integer c in
  the base ring. The string "delta" is never in the index set.
\<close>

fun simple_root ::
  "'y weight_space \<Rightarrow> key \<Rightarrow> error + ('y weight_space, 'a::ring_1) element" where
  "simple_root P Delta = Inl (InvalidKey Delta)"
| "simple_root P (Node j) =
     (if j \<notin> set (index_set (root_system P)) then Inl (InvalidKey (Node j))
      else
        (let result = sum_of_terms P
               (map (\<lambda>(i, c). (Node i, of_int c)) (column (root_system P) j))
         in if extended P \<and> j = special_node (root_system P)
            then Inr (add result (monomial P Delta))
            else Inr result))"

text \<open>
  \<^verbatim>\<open>to_ambient_space_morphism(self)\<close>, lines 434-457. \<open>L\<close> is the ambient space
  \<^verbatim>\<open>self.cartan_type().root_system().ambient_space()\<close> and \<open>basis\<close> its family
  \<^verbatim>\<open>L.fundamental_weights()\<close>; \<^verbatim>\<open>basis[i]\<close> raises KeyError when the family has no i.
\<close>

definition basis_value :: "(key \<rightharpoonup> 'v) \<Rightarrow> key \<Rightarrow> error + 'v" where
  "basis_value basis i = (case basis i of None \<Rightarrow> Inl (KeyError i) | Some v \<Rightarrow> Inr v)"

definition to_ambient_space_morphism ::
  "'y weight_space \<Rightarrow> 'q \<Rightarrow> (key \<rightharpoonup> ('q, 'a) element)
    \<Rightarrow> error + ('y weight_space, 'q, 'a) module_morphism" where
  "to_ambient_space_morphism P L basis =
     (if dual_side (root_system P) then Inl UnsupportedOperation
      else Inr \<lparr>domain = P, codomain = L, on_basis = basis_value basis\<rparr>)"

subsection \<open>WeightSpaceElement\<close>

text \<open>Python's \<^verbatim>\<open>sum(iterable, start)\<close>: the terms are added to \<open>start\<close> from the left.\<close>

definition py_sum :: "'a::plus list \<Rightarrow> 'a \<Rightarrow> 'a" where
  "py_sum ts start = foldl (+) start ts"

text \<open>
  The two generator expressions of \<^verbatim>\<open>scalar\<close>, lines 511 and 513, summed from zero:
  over the entries of \<open>self\<close>, looking up in \<open>lambdacheck\<close>, and the other way round.
\<close>

definition sum_over_self ::
  "('p, 'a::{zero,plus,times}) element \<Rightarrow> ('q, 'a) element \<Rightarrow> 'a" where
  "sum_over_self self lambdacheck =
     py_sum (map (\<lambda>(i, c). coefficient lambdacheck i * c) (monomial_coefficients self)) 0"

definition sum_over_lambdacheck ::
  "('p, 'a::{zero,plus,times}) element \<Rightarrow> ('q, 'a) element \<Rightarrow> 'a" where
  "sum_over_lambdacheck self lambdacheck =
     py_sum (map (\<lambda>(i, c). coefficient self i * c) (monomial_coefficients lambdacheck)) 0"

text \<open>
  \<^verbatim>\<open>scalar(self, lambdacheck)\<close>, lines 461-513. \<^verbatim>\<open>len\<close> of an element is the number
  of entries of its dictionary. Both operands have their coefficients in \<open>'a\<close>.
\<close>

definition scalar ::
  "(('p, 'a) element weight_space, 'a::{zero,plus,times}) element \<Rightarrow> ('p, 'a) element
    \<Rightarrow> error + 'a" where
  "scalar self lambdacheck =
     (if \<not> coroot_lattice (root_system (parent self)) lambdacheck
         \<and> \<not> coroot_space (root_system (parent self)) lambdacheck
      then Inl InvalidArgument
      else if length (monomial_coefficients self) < length (monomial_coefficients lambdacheck)
      then Inr (sum_over_self self lambdacheck)
      else Inr (sum_over_lambdacheck self lambdacheck))"

text \<open>\<^verbatim>\<open>is_dominant(self)\<close>, lines 515-543.\<close>

definition is_dominant :: "('y weight_space, 'a::{zero,ord}) element \<Rightarrow> bool" where
  "is_dominant self =
     list_all (\<lambda>i. coefficient self (Node i) \<ge> 0) (index_set (root_system (parent self)))"

text \<open>
  An element as the free module keeps it: no key twice, no zero coefficient.
\<close>

definition distinct_keys :: "('p, 'a) element \<Rightarrow> bool" where
  "distinct_keys x = distinct (map fst (monomial_coefficients x))"

definition no_zeros :: "('p, 'a::zero) element \<Rightarrow> bool" where
  "no_zeros x = list_all (\<lambda>(k, c). c \<noteq> 0) (monomial_coefficients x)"

subsection \<open>The simple coroots\<close>

text \<open>
  Modelled from the spec: \<^verbatim>\<open>simple_coroot\<close> is not defined in this module; it comes
  with the category of the realizations. The specification has the coroot lattice as
  a free module of which the monomial constructor, the zero element and the membership
  test are used, and the simple coroots as the basis dual to the fundamental weights:
  the \<open>j\<close>-th simple coroot is the basis monomial \<open>j\<close> of the coroot lattice \<open>Q\<close>.
\<close>

definition simple_coroot :: "'p \<Rightarrow> int \<Rightarrow> ('p, 'a::one) element" where
  "simple_coroot Q j = monomial Q (Node j)"

subsection \<open>The simple roots as the specification words them\<close>

text \<open>
  The specification of \<open>simple_root(j)\<close>: the linear combination, over column \<open>j\<close> of
  the Cartan matrix, of coefficient times \<open>fundamental_weight(i)\<close>, with the basis
  monomial for "delta" added when the model is extended and \<open>j\<close> is the special node;
  InvalidKey for a \<open>j\<close> outside the index set. It is compared with \<open>simple_root\<close> below.
\<close>

fun simple_root_by_fundamental_weights ::
  "'y weight_space \<Rightarrow> key \<Rightarrow> error + ('y weight_space, 'a::ring_1) element" where
  "simple_root_by_fundamental_weights P Delta = Inl (InvalidKey Delta)"
| "simple_root_by_fundamental_weights P (Node j) =
     (if j \<notin> set (index_set (root_system P)) then Inl (InvalidKey (Node j))
      else
        (case linear_extension (fundamental_weight P) P
                (map (\<lambda>(i, c). (Node i, of_int c)) (column (root_system P) j)) of
           Inl e \<Rightarrow> Inl e
         | Inr s \<Rightarrow>
             if extended P \<and> j = special_node (root_system P)
             then Inr (add s (monomial P Delta))
             else Inr s))"

subsection \<open>A concrete root system\<close>

text \<open>
  The affine type A2(1), nodes 0, 1, 2, special node 0, with the columns of its Cartan
  matrix; the coroot lattice and the coroot space are told by the parent of an element.
\<close>

definition A21 :: "(string, int) element root_system" where
  "A21 = \<lparr>index_set = [0, 1, 2], is_affine = True, special_node = 0,
          column = (\<lambda>j. if j = 0 then [(0, 2), (1, -1), (2, -1)]
                        else if j = 1 then [(1, 2), (0, -1), (2, -1)]
                        else [(2, 2), (0, -1), (1, -1)]),
          dual_side = False,
          coroot_lattice = (\<lambda>y. parent y = ''coroot lattice''),
          coroot_space = (\<lambda>y. parent y = ''coroot space'')\<rparr>"

definition A21_space :: "bool \<Rightarrow> (string, int) element weight_space" where
  "A21_space ext = \<lparr>root_system = A21, extended = ext,
     basis_keys = (if ext then [Node 0, Node 1, Node 2, Delta] else [Node 0, Node 1, Node 2])\<rparr>"

text \<open>
  The finite type A2, nodes 1 and 2 (a finite type has no special node; the field is not
  read for it), and the fundamental weights of its ambient space, (1, 0, 0) and
  (1, 1, 0) on the basis e0, e1, e2.
\<close>

definition A2 :: "(string, int) element root_system" where
  "A2 = \<lparr>index_set = [1, 2], is_affine = False, special_node = 0,
         column = (\<lambda>j. if j = 1 then [(1, 2), (2, -1)] else [(2, 2), (1, -1)]),
         dual_side = False,
         coroot_lattice = (\<lambda>y. parent y = ''coroot lattice''),
         coroot_space = (\<lambda>y. parent y = ''coroot space'')\<rparr>"

definition A2_space :: "(string, int) element weight_space" where
  "A2_space = \<lparr>root_system = A2, extended = False, basis_keys = [Node 1, Node 2]\<rparr>"

definition A2_ambient_weights :: "key \<rightharpoonup> (string, int) element" where
  "A2_ambient_weights =
     [Node 1 \<mapsto> \<lparr>parent = ''ambient space'', monomial_coefficients = [(Node 0, 1)]\<rparr>,
      Node 2 \<mapsto> \<lparr>parent = ''ambient space'',
                  monomial_coefficients = [(Node 0, 1), (Node 1, 1)]\<rparr>]"

section \<open>Dictionaries\<close>

lemma coefficient_in_Nil: "coefficient_in [] k = 0"
  by (simp add: coefficient_in_def)

lemma coefficient_in_Cons:
  "coefficient_in ((k', c) # d) k = (if k = k' then c else coefficient_in d k)"
  by (simp add: coefficient_in_def)

lemma coefficient_in_absent:
  "k \<notin> fst ` set d \<Longrightarrow> coefficient_in d k = 0"
  by (simp add: coefficient_in_def map_of_eq_None_iff[THEN iffD2])

lemma coefficient_in_present:
  "distinct (map fst d) \<Longrightarrow> (k, c) \<in> set d \<Longrightarrow> coefficient_in d k = c"
  by (simp add: coefficient_in_def)

lemma keys_add_term:
  "map fst (add_term k c d) = (if k \<in> fst ` set d then map fst d else map fst d @ [k])"
  by (induction d) force+

lemma distinct_add_term:
  "distinct (map fst d) \<Longrightarrow> distinct (map fst (add_term k c d))"
  by (simp add: keys_add_term)

lemma coefficient_in_add_term:
  fixes c :: "'a::monoid_add"
  shows "coefficient_in (add_term k c d) k' = coefficient_in d k' + (if k = k' then c else 0)"
  by (induction d) (auto simp: coefficient_in_Cons coefficient_in_Nil)

lemma distinct_add_terms:
  "distinct (map fst d) \<Longrightarrow> distinct (map fst (add_terms d ts))"
  unfolding add_terms_def
  by (induction ts arbitrary: d) (auto simp: distinct_add_term)

lemma coefficient_in_add_terms:
  fixes d :: "(key \<times> 'a::monoid_add) list"
  shows "coefficient_in (add_terms d ts) k
       = coefficient_in d k + sum_list (map (\<lambda>(k', c). if k' = k then c else 0) ts)"
  unfolding add_terms_def
  by (induction ts arbitrary: d) (auto simp: coefficient_in_add_term add.assoc)

lemma distinct_remove_zeros:
  "distinct (map fst d) \<Longrightarrow> distinct (map fst (remove_zeros d))"
  unfolding remove_zeros_def by (simp add: distinct_map_filter)

lemma coefficient_in_remove_zeros:
  "distinct (map fst d) \<Longrightarrow> coefficient_in (remove_zeros d) k = coefficient_in d k"
proof (induction d)
  case Nil
  show ?case by (simp add: remove_zeros_def)
next
  case (Cons p d)
  obtain k' c where p: "p = (k', c)" by (cases p)
  from Cons.prems p have absent: "k' \<notin> fst ` set d" and dist: "distinct (map fst d)"
    by simp_all
  have IH: "coefficient_in (remove_zeros d) k = coefficient_in d k"
    using Cons.IH dist by simp
  show ?case
  proof (cases "c = 0")
    case True
    then have "remove_zeros (p # d) = remove_zeros d"
      by (simp add: remove_zeros_def p)
    moreover have "coefficient_in (p # d) k = coefficient_in d k"
      using True absent by (simp add: p coefficient_in_Cons coefficient_in_absent)
    ultimately show ?thesis using IH by simp
  next
    case False
    then have "remove_zeros (p # d) = p # remove_zeros d"
      by (simp add: remove_zeros_def p)
    then show ?thesis using IH by (simp add: p coefficient_in_Cons)
  qed
qed

lemma no_zero_remove_zeros: "list_all (\<lambda>(k, c). c \<noteq> 0) (remove_zeros d)"
  unfolding remove_zeros_def by (simp add: list_all_iff)

subsection \<open>Elements\<close>

lemma coefficient_zero: "coefficient (zero P) k = 0"
  by (simp add: coefficient_def zero_def coefficient_in_Nil)

lemma coefficient_monomial: "coefficient (monomial P i) k = (if k = i then 1 else 0)"
  by (simp add: coefficient_def monomial_def coefficient_in_Cons coefficient_in_Nil)

lemma sum_list_key_terms:
  fixes ts :: "(key \<times> 'a::monoid_add) list"
  assumes "distinct (map fst ts)"
  shows "sum_list (map (\<lambda>(k', c). if k' = k then c else 0) ts) = coefficient_in ts k"
  using assms
proof (induction ts)
  case Nil
  show ?case by (simp add: coefficient_in_Nil)
next
  case (Cons p ts)
  obtain k' c where p: "p = (k', c)" by (cases p)
  from Cons.prems p have absent: "k' \<notin> fst ` set ts" and dist: "distinct (map fst ts)"
    by simp_all
  show ?case
  proof (cases "k' = k")
    case True
    then have "coefficient_in ts k = 0" using absent by (simp add: coefficient_in_absent)
    then show ?thesis using Cons.IH [OF dist] True by (simp add: p coefficient_in_Cons)
  next
    case False
    then show ?thesis using Cons.IH [OF dist] by (auto simp add: p coefficient_in_Cons)
  qed
qed

lemma coefficient_add:
  fixes x y :: "('p, 'a::monoid_add) element"
  assumes "distinct_keys x" and "distinct_keys y"
  shows "coefficient (add x y) k = coefficient x k + coefficient y k"
  using assms
  by (simp add: coefficient_def add_def distinct_keys_def coefficient_in_remove_zeros
      distinct_add_terms coefficient_in_add_terms sum_list_key_terms)

lemma distinct_keys_add: "distinct_keys x \<Longrightarrow> distinct_keys (add x y)"
  by (simp add: distinct_keys_def add_def distinct_remove_zeros distinct_add_terms)

lemma no_zeros_add: "no_zeros (add x y)"
  by (simp add: no_zeros_def add_def no_zero_remove_zeros)

lemma parent_add: "parent (add x y) = parent x"
  by (simp add: add_def)

lemma coefficient_in_map_scale:
  fixes d :: "(key \<times> 'a::mult_zero) list"
  shows "coefficient_in (map (\<lambda>(k, v). (k, c * v)) d) k = c * coefficient_in d k"
  by (induction d) (auto simp: coefficient_in_Cons coefficient_in_Nil)

lemma keys_map_scale: "map fst (map (\<lambda>(k, v). (k, c * v)) d) = map fst d"
  by (induction d) auto

lemma coefficient_scale:
  fixes x :: "('p, 'a::mult_zero) element"
  assumes "distinct_keys x"
  shows "coefficient (scale c x) k = c * coefficient x k"
proof -
  let ?d = "map (\<lambda>(k, v). (k, c * v)) (monomial_coefficients x)"
  have "distinct (map fst ?d)"
    using assms unfolding distinct_keys_def keys_map_scale .
  then have "coefficient_in (remove_zeros ?d) k = coefficient_in ?d k"
    by (rule coefficient_in_remove_zeros)
  then show ?thesis
    by (simp add: coefficient_def scale_def coefficient_in_map_scale)
qed

lemma distinct_keys_scale:
  assumes "distinct_keys x"
  shows "distinct_keys (scale c x)"
proof -
  let ?d = "map (\<lambda>(k, v). (k, c * v)) (monomial_coefficients x)"
  have "distinct (map fst ?d)"
    using assms unfolding distinct_keys_def keys_map_scale .
  then have "distinct (map fst (remove_zeros ?d))"
    by (rule distinct_remove_zeros)
  then show ?thesis by (simp add: distinct_keys_def scale_def)
qed

lemma parent_scale: "parent (scale c x) = parent x"
  by (simp add: scale_def)

lemma coefficient_sum_of_terms:
  fixes ts :: "(key \<times> 'a::monoid_add) list"
  shows "coefficient (sum_of_terms P ts) k
       = sum_list (map (\<lambda>(k', c). if k' = k then c else 0) ts)"
  by (simp add: coefficient_def sum_of_terms_def coefficient_in_remove_zeros
      distinct_add_terms coefficient_in_add_terms coefficient_in_Nil)

lemma distinct_keys_sum_of_terms: "distinct_keys (sum_of_terms P ts)"
  by (simp add: distinct_keys_def sum_of_terms_def distinct_remove_zeros distinct_add_terms)

lemma no_zeros_sum_of_terms: "no_zeros (sum_of_terms P ts)"
  by (simp add: no_zeros_def sum_of_terms_def no_zero_remove_zeros)

lemma distinct_keys_zero: "distinct_keys (zero P)"
  by (simp add: distinct_keys_def zero_def)

lemma distinct_keys_monomial: "distinct_keys (monomial P i)"
  by (simp add: distinct_keys_def monomial_def)

text \<open>Two dictionaries with the same coefficients and no zero entry have the same items.\<close>

lemma items_subset:
  fixes d d' :: "(key \<times> 'a::zero) list"
  assumes "distinct (map fst d)" and "list_all (\<lambda>(k, c). c \<noteq> 0) d"
    and "\<And>k. coefficient_in d k = coefficient_in d' k"
  shows "set d \<subseteq> set d'"
proof
  fix p assume p: "p \<in> set d"
  obtain k c where kc: "p = (k, c)" by (cases p)
  from p kc assms(2) have nz: "c \<noteq> 0" by (auto simp: list_all_iff)
  from p kc assms(1) have "coefficient_in d k = c" by (simp add: coefficient_in_present)
  with assms(3) have "coefficient_in d' k = c" by simp
  with nz have "map_of d' k = Some c"
    by (auto simp: coefficient_in_def split: option.splits)
  then show "p \<in> set d'" using kc by (simp add: map_of_SomeD)
qed

lemma same_items:
  fixes x y :: "('p, 'a::zero) element"
  assumes "distinct_keys x" "no_zeros x" "distinct_keys y" "no_zeros y"
    and "\<And>k. coefficient x k = coefficient y k"
  shows "set (monomial_coefficients x) = set (monomial_coefficients y)"
proof
  show "set (monomial_coefficients x) \<subseteq> set (monomial_coefficients y)"
    using assms by (intro items_subset) (simp_all add: distinct_keys_def no_zeros_def coefficient_def)
  show "set (monomial_coefficients y) \<subseteq> set (monomial_coefficients x)"
    using assms by (intro items_subset) (simp_all add: distinct_keys_def no_zeros_def coefficient_def)
qed

subsection \<open>The pairing\<close>

lemma py_sum_sum_list:
  fixes ts :: "'a::monoid_add list"
  shows "py_sum ts start = start + sum_list ts"
  unfolding py_sum_def
  by (induction ts arbitrary: start) (simp_all add: add.assoc)

lemma entries_by_key:
  fixes d :: "(key \<times> 'b::zero) list"
  assumes "distinct (map fst d)"
  shows "map (\<lambda>(i, c). g i c) d = map (\<lambda>i. g i (coefficient_in d i)) (map fst d)"
proof -
  have "\<And>p. p \<in> set d \<Longrightarrow> (case p of (i, c) \<Rightarrow> g i c) = g (fst p) (coefficient_in d (fst p))"
    using assms by (auto simp: coefficient_in_present)
  then show ?thesis by (simp add: comp_def cong: map_cong)
qed

lemma sum_entries_by_key:
  fixes g :: "key \<Rightarrow> 'b::zero \<Rightarrow> 'a::comm_monoid_add"
  assumes "distinct (map fst d)"
  shows "sum_list (map (\<lambda>(i, c). g i c) d) = (\<Sum>i \<in> fst ` set d. g i (coefficient_in d i))"
proof -
  have "sum_list (map (\<lambda>(i, c). g i c) d)
      = sum_list (map (\<lambda>i. g i (coefficient_in d i)) (map fst d))"
    using assms by (simp only: entries_by_key)
  also have "\<dots> = (\<Sum>i \<in> set (map fst d). g i (coefficient_in d i))"
    using assms by (rule sum_list_distinct_conv_sum_set)
  finally show ?thesis by simp
qed

lemma sum_over_self_shared:
  fixes x :: "('p, 'a::comm_semiring_0) element" and y :: "('q, 'a) element"
  assumes "distinct_keys x"
  shows "sum_over_self x y
       = (\<Sum>k \<in> fst ` set (monomial_coefficients x) \<inter> fst ` set (monomial_coefficients y).
            coefficient x k * coefficient y k)"
proof -
  let ?X = "fst ` set (monomial_coefficients x)" and ?Y = "fst ` set (monomial_coefficients y)"
  have "sum_over_self x y = (\<Sum>k \<in> ?X. coefficient y k * coefficient x k)"
    using assms
    by (simp add: sum_over_self_def py_sum_sum_list distinct_keys_def coefficient_def
        sum_entries_by_key [where g = "\<lambda>i c. coefficient_in (monomial_coefficients y) i * c"])
  also have "\<dots> = (\<Sum>k \<in> ?X. coefficient x k * coefficient y k)"
    by (simp add: mult.commute)
  also have "\<dots> = (\<Sum>k \<in> ?X \<inter> ?Y. coefficient x k * coefficient y k)"
    by (rule sum.mono_neutral_right) (auto simp: coefficient_def coefficient_in_absent)
  finally show ?thesis .
qed

lemma sum_over_lambdacheck_shared:
  fixes x :: "('p, 'a::comm_semiring_0) element" and y :: "('q, 'a) element"
  assumes "distinct_keys y"
  shows "sum_over_lambdacheck x y
       = (\<Sum>k \<in> fst ` set (monomial_coefficients x) \<inter> fst ` set (monomial_coefficients y).
            coefficient x k * coefficient y k)"
proof -
  let ?X = "fst ` set (monomial_coefficients x)" and ?Y = "fst ` set (monomial_coefficients y)"
  have "sum_over_lambdacheck x y = (\<Sum>k \<in> ?Y. coefficient x k * coefficient y k)"
    using assms
    by (simp add: sum_over_lambdacheck_def py_sum_sum_list distinct_keys_def coefficient_def
        sum_entries_by_key [where g = "\<lambda>i c. coefficient_in (monomial_coefficients x) i * c"])
  also have "\<dots> = (\<Sum>k \<in> ?X \<inter> ?Y. coefficient x k * coefficient y k)"
  proof (rule sum.mono_neutral_right)
    show "\<forall>k \<in> ?Y - ?X \<inter> ?Y. coefficient x k * coefficient y k = 0"
    proof
      fix k assume "k \<in> ?Y - ?X \<inter> ?Y"
      then have "k \<notin> ?X" by blast
      then have "coefficient x k = 0" by (simp add: coefficient_def coefficient_in_absent)
      then show "coefficient x k * coefficient y k = 0" by simp
    qed
  qed auto
  finally show ?thesis .
qed

subsection \<open>Homomorphisms given on the basis\<close>

lemma linear_extension_total:
  fixes f :: "key \<Rightarrow> error + ('c, 'a::semiring_0) element"
  assumes "\<And>k. k \<in> fst ` set d \<Longrightarrow> f k = Inr (g k) \<and> distinct_keys (g k) \<and> parent (g k) = C"
  shows "\<exists>r. linear_extension f C d = Inr r \<and> parent r = C \<and> distinct_keys r
           \<and> no_zeros r
           \<and> (\<forall>k'. coefficient r k' = sum_list (map (\<lambda>(k, c). c * coefficient (g k) k') d))"
  using assms
proof (induction d)
  case Nil
  show ?case
    by (simp add: zero_def distinct_keys_def no_zeros_def coefficient_def coefficient_in_Nil)
next
  case (Cons p d)
  obtain k c where p: "p = (k, c)" by (cases p)
  have fk: "f k = Inr (g k)" and dk: "distinct_keys (g k)" and pk: "parent (g k) = C"
    using Cons.prems [of k] by (simp_all add: p)
  have "\<And>k. k \<in> fst ` set d \<Longrightarrow> f k = Inr (g k) \<and> distinct_keys (g k) \<and> parent (g k) = C"
    using Cons.prems by simp
  from Cons.IH [OF this] obtain r where
    r: "linear_extension f C d = Inr r" and pr: "parent r = C" and dr: "distinct_keys r"
    and cr: "\<forall>k'. coefficient r k' = sum_list (map (\<lambda>(k, c). c * coefficient (g k) k') d)"
    by blast
  let ?s = "add (scale c (g k)) r"
  have ret: "linear_extension f C (p # d) = Inr ?s"
    by (simp add: p fk r)
  have "coefficient ?s k' = c * coefficient (g k) k' + coefficient r k'" for k'
    using dk dr by (simp add: coefficient_add distinct_keys_scale coefficient_scale)
  then have "\<forall>k'. coefficient ?s k'
      = sum_list (map (\<lambda>(k, c). c * coefficient (g k) k') (p # d))"
    using cr by (simp add: p)
  moreover have "parent ?s = C" by (simp add: parent_add parent_scale pk)
  moreover have "distinct_keys ?s" using dk by (simp add: distinct_keys_add distinct_keys_scale)
  moreover have "no_zeros ?s" by (rule no_zeros_add)
  ultimately show ?case using ret by simp
qed

lemma fundamental_weight_on_basis:
  fixes P :: "'y weight_space"
  assumes "is_affine (root_system P)" and "\<not> extended P"
    and "k \<in> set (map Node (index_set (root_system P)) @ [Delta])"
  shows "(fundamental_weight P k :: error + ('y weight_space, 'a::one) element)
       = Inr (if k = Delta then zero P else monomial P k)"
  using assms by (auto simp: fundamental_weight_def)

section \<open>Theorems\<close>

text \<open>
  C2: \<open>fundamental_weight(i)\<close>: for the literal "delta" it fails with
  UnsupportedOperation unless the Cartan type is affine, returns the basis monomial for
  "delta" when affine and extended, and the zero element when affine and not extended;
  for any other \<open>i\<close> it fails with InvalidKey when \<open>i\<close> is not in the index set and
  otherwise returns the basis monomial for \<open>i\<close>.
\<close>

theorem fundamental_weight_cases:
  fixes P :: "'y weight_space"
  shows "(\<not> is_affine (root_system P) \<longrightarrow>
            (fundamental_weight P Delta :: error + ('y weight_space, 'a::one) element)
              = Inl UnsupportedOperation)
       \<and> (is_affine (root_system P) \<and> extended P \<longrightarrow>
            (fundamental_weight P Delta :: error + ('y weight_space, 'a) element)
              = Inr (monomial P Delta))
       \<and> (is_affine (root_system P) \<and> \<not> extended P \<longrightarrow>
            (fundamental_weight P Delta :: error + ('y weight_space, 'a) element)
              = Inr (zero P))
       \<and> (n \<notin> set (index_set (root_system P)) \<longrightarrow>
            (fundamental_weight P (Node n) :: error + ('y weight_space, 'a) element)
              = Inl (InvalidKey (Node n)))
       \<and> (n \<in> set (index_set (root_system P)) \<longrightarrow>
            (fundamental_weight P (Node n) :: error + ('y weight_space, 'a) element)
              = Inr (monomial P (Node n)))"
  by (simp add: fundamental_weight_def)

theorem fundamental_weight_cases_witness:
  "is_affine (root_system (A21_space True)) \<and> extended (A21_space True)
   \<and> 1 \<in> set (index_set (root_system (A21_space True)))
   \<and> 7 \<notin> set (index_set (root_system (A21_space True)))
   \<and> (fundamental_weight (A21_space True) Delta
        :: error + ((string, int) element weight_space, int) element)
       = Inr (monomial (A21_space True) Delta)
   \<and> (fundamental_weight (A21_space True) (Node 1)
        :: error + ((string, int) element weight_space, int) element)
       = Inr (monomial (A21_space True) (Node 1))
   \<and> (fundamental_weight (A21_space True) (Node 7)
        :: error + ((string, int) element weight_space, int) element)
       = Inl (InvalidKey (Node 7))
   \<and> is_affine (root_system (A21_space False)) \<and> \<not> extended (A21_space False)
   \<and> (fundamental_weight (A21_space False) Delta
        :: error + ((string, int) element weight_space, int) element)
       = Inr (zero (A21_space False))
   \<and> \<not> is_affine (root_system A2_space)
   \<and> (fundamental_weight A2_space Delta
        :: error + ((string, int) element weight_space, int) element)
       = Inl UnsupportedOperation"
  using fundamental_weight_cases [of "A21_space True" 1, where 'a = int]
        fundamental_weight_cases [of "A21_space True" 7, where 'a = int]
        fundamental_weight_cases [of "A21_space False" 1, where 'a = int]
        fundamental_weight_cases [of A2_space 1, where 'a = int]
  by (simp add: A21_space_def A21_def A2_space_def A2_def)

text \<open>
  C6: constructing a WeightSpace with \<open>extended = true\<close> fails with
  InvalidConfiguration when the Cartan type of the root system is not affine; on
  success the basis keys are the index set, with the key "delta" appended exactly when
  \<open>extended\<close> is true.
\<close>

theorem init_basis_keys:
  fixes rs :: "'y root_system"
  shows "(\<not> is_affine rs \<longrightarrow>
            (init rs True :: error + ('y weight_space \<times>
               ('y weight_space, 'y weight_space, 'a::one) module_morphism option))
              = Inl InvalidConfiguration)
       \<and> (\<forall>P m. (init rs ext :: error + ('y weight_space \<times>
               ('y weight_space, 'y weight_space, 'a) module_morphism option)) = Inr (P, m)
            \<longrightarrow> root_system P = rs \<and> extended P = ext
              \<and> basis_keys P = map Node (index_set rs) @ (if ext then [Delta] else []))
       \<and> ((\<exists>P m. (init rs ext :: error + ('y weight_space \<times>
               ('y weight_space, 'y weight_space, 'a) module_morphism option)) = Inr (P, m))
            \<longleftrightarrow> (ext \<longrightarrow> is_affine rs))"
  by (auto simp: init_def construct_def split: sum.splits if_splits)

theorem init_basis_keys_witness:
  "is_affine A21
   \<and> (\<exists>P m. (init A21 True :: error + ((string, int) element weight_space \<times>
         ((string, int) element weight_space, (string, int) element weight_space, int)
           module_morphism option)) = Inr (P, m)
        \<and> basis_keys P = [Node 0, Node 1, Node 2, Delta])
   \<and> \<not> is_affine A2
   \<and> (init A2 True :: error + ((string, int) element weight_space \<times>
         ((string, int) element weight_space, (string, int) element weight_space, int)
           module_morphism option)) = Inl InvalidConfiguration
   \<and> (\<exists>P m. (init A2 False :: error + ((string, int) element weight_space \<times>
         ((string, int) element weight_space, (string, int) element weight_space, int)
           module_morphism option)) = Inr (P, m)
        \<and> basis_keys P = [Node 1, Node 2])"
proof -
  have f: "\<not> is_affine A2" by (simp add: A2_def)
  then have e: "(init A2 True :: error + ((string, int) element weight_space \<times>
         ((string, int) element weight_space, (string, int) element weight_space, int)
           module_morphism option)) = Inl InvalidConfiguration"
    using init_basis_keys [of A2 True, where 'a = int] by blast
  obtain P2 m2 where
    i2: "(init A2 False :: error + ((string, int) element weight_space \<times>
         ((string, int) element weight_space, (string, int) element weight_space, int)
           module_morphism option)) = Inr (P2, m2)"
    using init_basis_keys [of A2 False, where 'a = int] by blast
  then have "basis_keys P2 = map Node (index_set A2) @ []"
    using init_basis_keys [of A2 False, where 'a = int] by simp
  then have k2: "basis_keys P2 = [Node 1, Node 2]" by (simp add: A2_def)
  have a: "is_affine A21" by (simp add: A21_def)
  then obtain P m where
    i: "(init A21 True :: error + ((string, int) element weight_space \<times>
         ((string, int) element weight_space, (string, int) element weight_space, int)
           module_morphism option)) = Inr (P, m)"
    using init_basis_keys [of A21 True, where 'a = int] by blast
  then have "basis_keys P = map Node (index_set A21) @ [Delta]"
    using init_basis_keys [of A21 True, where 'a = int] by simp
  then have "basis_keys P = [Node 0, Node 1, Node 2, Delta]" by (simp add: A21_def)
  with a i f e i2 k2 show ?thesis by blast
qed

text \<open>
  C8: for every basis key \<open>i\<close>, the classical projection on the basis is the zero
  element of the classical space when \<open>i\<close> is "delta" or the special node of the Cartan
  type, and the basis monomial for \<open>i\<close> of the classical space otherwise.
\<close>

theorem to_classical_on_basis_cases:
  fixes P :: "'y weight_space" and cl :: 'c
  shows "((to_classical_on_basis P cl Delta :: ('c, 'a::one) element) = zero cl)
       \<and> ((to_classical_on_basis P cl (Node (special_node (root_system P)))
             :: ('c, 'a) element) = zero cl)
       \<and> (i \<noteq> Delta \<and> i \<noteq> Node (special_node (root_system P)) \<longrightarrow>
            (to_classical_on_basis P cl i :: ('c, 'a) element) = monomial cl i)"
  by (simp add: to_classical_on_basis_def)

theorem to_classical_on_basis_cases_witness:
  "Node 1 \<noteq> Delta \<and> Node 1 \<noteq> Node (special_node (root_system (A21_space False)))
   \<and> (to_classical_on_basis (A21_space False) ''classical'' (Node 1) :: (string, int) element)
       = \<lparr>parent = ''classical'', monomial_coefficients = [(Node 1, 1)]\<rparr>
   \<and> (to_classical_on_basis (A21_space False) ''classical'' (Node 0) :: (string, int) element)
       = \<lparr>parent = ''classical'', monomial_coefficients = []\<rparr>
   \<and> (to_classical_on_basis (A21_space False) ''classical'' Delta :: (string, int) element)
       = \<lparr>parent = ''classical'', monomial_coefficients = []\<rparr>"
  using to_classical_on_basis_cases [of "A21_space False" "''classical''" "Node 1", where 'a = int]
  by (simp add: A21_space_def A21_def monomial_def zero_def)

text \<open>
  C3: \<open>x.scalar(y)\<close> fails with InvalidArgument when \<open>y\<close> belongs neither to the
  coroot lattice nor to the coroot space of the parent of \<open>x\<close>; when it belongs to one
  of them, the result is the sum, over the basis keys the two dictionaries share, of
  the coefficient of \<open>x\<close> times the coefficient of \<open>y\<close>, accumulated in the base ring
  from its zero. The dictionaries of elements have no key twice.
\<close>

theorem scalar_shared_keys:
  fixes x :: "(('p, 'a) element weight_space, 'a::comm_semiring_0) element"
    and y :: "('p, 'a) element"
  shows "(\<not> coroot_lattice (root_system (parent x)) y
            \<and> \<not> coroot_space (root_system (parent x)) y
          \<longrightarrow> scalar x y = Inl InvalidArgument)
       \<and> ((coroot_lattice (root_system (parent x)) y \<or> coroot_space (root_system (parent x)) y)
            \<and> distinct_keys x \<and> distinct_keys y
          \<longrightarrow> scalar x y =
                Inr (0 + (\<Sum>k \<in> fst ` set (monomial_coefficients x)
                                 \<inter> fst ` set (monomial_coefficients y).
                            coefficient x k * coefficient y k)))"
proof (intro conjI impI)
  assume "\<not> coroot_lattice (root_system (parent x)) y
            \<and> \<not> coroot_space (root_system (parent x)) y"
  then show "scalar x y = Inl InvalidArgument" by (simp add: scalar_def)
next
  assume h: "(coroot_lattice (root_system (parent x)) y \<or> coroot_space (root_system (parent x)) y)
            \<and> distinct_keys x \<and> distinct_keys y"
  then have "scalar x y = Inr (sum_over_self x y) \<or> scalar x y = Inr (sum_over_lambdacheck x y)"
    by (auto simp: scalar_def)
  moreover from h have "sum_over_self x y
       = (\<Sum>k \<in> fst ` set (monomial_coefficients x) \<inter> fst ` set (monomial_coefficients y).
            coefficient x k * coefficient y k)"
    by (simp add: sum_over_self_shared)
  moreover from h have "sum_over_lambdacheck x y
       = (\<Sum>k \<in> fst ` set (monomial_coefficients x) \<inter> fst ` set (monomial_coefficients y).
            coefficient x k * coefficient y k)"
    by (simp add: sum_over_lambdacheck_shared)
  ultimately show "scalar x y =
                Inr (0 + (\<Sum>k \<in> fst ` set (monomial_coefficients x)
                                 \<inter> fst ` set (monomial_coefficients y).
                            coefficient x k * coefficient y k))"
    by auto
qed

theorem scalar_shared_keys_witness:
  "coroot_lattice (root_system (parent
      \<lparr>parent = A21_space False, monomial_coefficients = [(Node 0, 2), (Node 1, 3)]\<rparr>))
      \<lparr>parent = ''coroot lattice'',
       monomial_coefficients = [(Node 1, 5), (Node 2, 7), (Delta, 1)]\<rparr>
   \<and> distinct_keys \<lparr>parent = A21_space False,
                     monomial_coefficients = [(Node 0, 2), (Node 1, 3 :: int)]\<rparr>
   \<and> distinct_keys \<lparr>parent = ''coroot lattice'',
                     monomial_coefficients = [(Node 1, 5), (Node 2, 7), (Delta, 1 :: int)]\<rparr>
   \<and> scalar \<lparr>parent = A21_space False, monomial_coefficients = [(Node 0, 2), (Node 1, 3)]\<rparr>
        \<lparr>parent = ''coroot lattice'',
         monomial_coefficients = [(Node 1, 5), (Node 2, 7), (Delta, 1)]\<rparr> = Inr 15
   \<and> scalar \<lparr>parent = A21_space False, monomial_coefficients = [(Node 0, 2), (Node 1, 3)]\<rparr>
        \<lparr>parent = ''coweight space'',
         monomial_coefficients = [(Node 1, 5), (Node 2, 7), (Delta, 1)]\<rparr>
       = Inl InvalidArgument"
  using scalar_shared_keys
    [of "\<lparr>parent = A21_space False, monomial_coefficients = [(Node 0, 2), (Node 1, 3)]\<rparr>"
        "\<lparr>parent = ''coroot lattice'',
          monomial_coefficients = [(Node 1, 5), (Node 2, 7), (Delta, 1)]\<rparr>"]
    scalar_shared_keys
    [of "\<lparr>parent = A21_space False, monomial_coefficients = [(Node 0, 2), (Node 1, 3)]\<rparr>"
        "\<lparr>parent = ''coweight space'',
          monomial_coefficients = [(Node 1, 5), (Node 2, 7), (Delta, 1)]\<rparr>"]
  by (simp add: A21_space_def A21_def distinct_keys_def coefficient_def coefficient_in_def)

text \<open>
  C10: the two branches of the sparse inner product of \<open>scalar\<close> (over the entries of
  \<open>x\<close>, looking up in \<open>y\<close>, and over the entries of \<open>y\<close>, looking up in \<open>x\<close>) are equal,
  so the value \<open>x.scalar(y)\<close> returns does not depend on which operand has fewer
  entries.
\<close>

theorem scalar_branches_agree:
  fixes x :: "(('p, 'a) element weight_space, 'a::comm_semiring_0) element"
    and y :: "('p, 'a) element"
  assumes "distinct_keys x" and "distinct_keys y"
  shows "sum_over_self x y = sum_over_lambdacheck x y
       \<and> ((coroot_lattice (root_system (parent x)) y \<or> coroot_space (root_system (parent x)) y)
          \<longrightarrow> scalar x y = Inr (sum_over_self x y)
            \<and> scalar x y = Inr (sum_over_lambdacheck x y))"
proof -
  have eq: "sum_over_self x y = sum_over_lambdacheck x y"
    using assms by (simp add: sum_over_self_shared sum_over_lambdacheck_shared)
  then show ?thesis by (auto simp: scalar_def)
qed

theorem scalar_branches_agree_witness:
  "distinct_keys \<lparr>parent = A21_space False,
                   monomial_coefficients = [(Node 0, 2), (Node 1, 3 :: int)]\<rparr>
   \<and> distinct_keys \<lparr>parent = ''coroot space'',
                     monomial_coefficients = [(Node 1, 5), (Node 2, 7), (Node 0, 1 :: int)]\<rparr>
   \<and> coroot_space (root_system (A21_space False))
        \<lparr>parent = ''coroot space'',
         monomial_coefficients = [(Node 1, 5), (Node 2, 7), (Node 0, 1)]\<rparr>
   \<and> sum_over_self
        \<lparr>parent = A21_space False, monomial_coefficients = [(Node 0, 2), (Node 1, 3 :: int)]\<rparr>
        \<lparr>parent = ''coroot space'',
         monomial_coefficients = [(Node 1, 5), (Node 2, 7), (Node 0, 1)]\<rparr> = 17
   \<and> sum_over_lambdacheck
        \<lparr>parent = A21_space False, monomial_coefficients = [(Node 0, 2), (Node 1, 3 :: int)]\<rparr>
        \<lparr>parent = ''coroot space'',
         monomial_coefficients = [(Node 1, 5), (Node 2, 7), (Node 0, 1)]\<rparr> = 17
   \<and> scalar
        \<lparr>parent = A21_space False, monomial_coefficients = [(Node 0, 2), (Node 1, 3)]\<rparr>
        \<lparr>parent = ''coroot space'',
         monomial_coefficients = [(Node 1, 5), (Node 2, 7), (Node 0, 1)]\<rparr> = Inr 17"
proof -
  let ?x = "\<lparr>parent = A21_space False,
              monomial_coefficients = [(Node 0, 2), (Node 1, 3 :: int)]\<rparr>"
  let ?y = "\<lparr>parent = ''coroot space'',
              monomial_coefficients = [(Node 1, 5), (Node 2, 7), (Node 0, 1 :: int)]\<rparr>"
  have dx: "distinct_keys ?x" and dy: "distinct_keys ?y"
    by (simp_all add: distinct_keys_def)
  have m: "coroot_space (root_system (A21_space False)) ?y"
    by (simp add: A21_space_def A21_def)
  have v: "sum_over_self ?x ?y = 17"
    by (simp add: sum_over_self_def py_sum_def coefficient_def coefficient_in_def)
  from scalar_branches_agree [OF dx dy] m v dx dy show ?thesis by simp
qed

text \<open>
  C7: \<open>x.is_dominant()\<close> is true if and only if the coefficient of \<open>x\<close> at every key of
  the index set is at least zero in the ordering of the base ring; the key "delta" is
  not looked at, so two elements of one space that differ only there are dominant
  together.
\<close>

theorem is_dominant_iff:
  fixes x x' :: "('y weight_space, 'a::{zero,ord}) element"
  shows "(is_dominant x \<longleftrightarrow>
            (\<forall>i \<in> set (index_set (root_system (parent x))). 0 \<le> coefficient x (Node i)))
       \<and> (parent x' = parent x \<and> (\<forall>i. coefficient x' (Node i) = coefficient x (Node i))
            \<longrightarrow> is_dominant x' = is_dominant x)"
  by (simp add: is_dominant_def list_all_iff)

theorem is_dominant_iff_witness:
  "is_dominant \<lparr>parent = A21_space True,
                 monomial_coefficients = [(Node 1, 1 :: int), (Delta, - 1)]\<rparr>
   \<and> is_dominant \<lparr>parent = A21_space True, monomial_coefficients = [(Node 1, 1 :: int)]\<rparr>
   \<and> \<not> is_dominant \<lparr>parent = A21_space True,
                     monomial_coefficients = [(Node 1, 1 :: int), (Node 2, - 1)]\<rparr>"
  using is_dominant_iff
    [of "\<lparr>parent = A21_space True, monomial_coefficients = [(Node 1, 1 :: int), (Delta, - 1)]\<rparr>"
        "\<lparr>parent = A21_space True, monomial_coefficients = [(Node 1, 1 :: int)]\<rparr>"]
    is_dominant_iff
    [of "\<lparr>parent = A21_space True,
          monomial_coefficients = [(Node 1, 1 :: int), (Node 2, - 1)]\<rparr>"
        "\<lparr>parent = A21_space True, monomial_coefficients = [(Node 1, 1 :: int)]\<rparr>"]
  by (simp add: A21_space_def A21_def coefficient_def coefficient_in_def)

text \<open>
  C9: \<open>to_ambient_space_morphism()\<close> fails with UnsupportedOperation whenever the model
  is on the dual (coweight) side; on the direct side it returns the module
  homomorphism from the space to the ambient space that sends each basis monomial \<open>i\<close>
  to the \<open>i\<close>-th fundamental weight of the ambient space.
\<close>

theorem to_ambient_space_morphism_cases:
  fixes P :: "'y weight_space" and L :: 'q
    and basis :: "key \<rightharpoonup> ('q, 'a::semiring_1) element"
  shows "(dual_side (root_system P) \<longrightarrow>
            to_ambient_space_morphism P L basis = Inl UnsupportedOperation)
       \<and> (\<not> dual_side (root_system P) \<longrightarrow>
            (\<exists>m. to_ambient_space_morphism P L basis = Inr m
                \<and> domain m = P \<and> codomain m = L
                \<and> (\<forall>i w. basis i = Some w \<longrightarrow>
                      on_basis m i = Inr w
                    \<and> (distinct_keys w \<longrightarrow>
                         (\<exists>r. apply_morphism m (monomial P i) = Inr r
                            \<and> parent r = parent w
                            \<and> (\<forall>k. coefficient r k = coefficient w k))))))"
proof (intro conjI impI)
  assume "dual_side (root_system P)"
  then show "to_ambient_space_morphism P L basis = Inl UnsupportedOperation"
    by (simp add: to_ambient_space_morphism_def)
next
  assume direct: "\<not> dual_side (root_system P)"
  let ?m = "\<lparr>domain = P, codomain = L, on_basis = basis_value basis\<rparr>"
  have ret: "to_ambient_space_morphism P L basis = Inr ?m"
    using direct by (simp add: to_ambient_space_morphism_def)
  have img: "on_basis ?m i = Inr w
       \<and> (distinct_keys w \<longrightarrow>
            (\<exists>r. apply_morphism ?m (monomial P i) = Inr r
               \<and> parent r = parent w
               \<and> (\<forall>k. coefficient r k = coefficient w k)))"
    if w: "basis i = Some w" for i w
  proof (intro conjI impI)
    show "on_basis ?m i = Inr w" using w by (simp add: basis_value_def)
  next
    assume dw: "distinct_keys w"
    have app: "apply_morphism ?m (monomial P i) = Inr (add (scale 1 w) (zero L))"
      using w by (simp add: apply_morphism_def monomial_def basis_value_def)
    have "coefficient (add (scale 1 w) (zero L)) k = coefficient w k" for k
      using dw
      by (simp add: coefficient_add distinct_keys_scale distinct_keys_zero
          coefficient_scale coefficient_zero)
    then show "\<exists>r. apply_morphism ?m (monomial P i) = Inr r
               \<and> parent r = parent w
               \<and> (\<forall>k. coefficient r k = coefficient w k)"
      using app by (simp add: parent_add parent_scale)
  qed
  show "\<exists>m. to_ambient_space_morphism P L basis = Inr m
                \<and> domain m = P \<and> codomain m = L
                \<and> (\<forall>i w. basis i = Some w \<longrightarrow>
                      on_basis m i = Inr w
                    \<and> (distinct_keys w \<longrightarrow>
                         (\<exists>r. apply_morphism m (monomial P i) = Inr r
                            \<and> parent r = parent w
                            \<and> (\<forall>k. coefficient r k = coefficient w k))))"
    using ret img by (intro exI [of _ ?m]) simp
qed

theorem to_ambient_space_morphism_cases_witness:
  "dual_side (root_system (A2_space\<lparr>root_system := A2\<lparr>dual_side := True\<rparr>\<rparr>))
   \<and> to_ambient_space_morphism (A2_space\<lparr>root_system := A2\<lparr>dual_side := True\<rparr>\<rparr>)
         ''ambient space'' A2_ambient_weights = Inl UnsupportedOperation
   \<and> \<not> dual_side (root_system A2_space)
   \<and> A2_ambient_weights (Node 2)
       = Some \<lparr>parent = ''ambient space'', monomial_coefficients = [(Node 0, 1), (Node 1, 1)]\<rparr>
   \<and> distinct_keys \<lparr>parent = ''ambient space'',
                     monomial_coefficients = [(Node 0, 1), (Node 1, 1 :: int)]\<rparr>
   \<and> (\<exists>m. to_ambient_space_morphism A2_space ''ambient space'' A2_ambient_weights = Inr m
         \<and> on_basis m (Node 2)
             = Inr \<lparr>parent = ''ambient space'',
                    monomial_coefficients = [(Node 0, 1), (Node 1, 1)]\<rparr>
         \<and> (\<exists>r. apply_morphism m (monomial A2_space (Node 2)) = Inr r
               \<and> coefficient r (Node 0) = 1 \<and> coefficient r (Node 1) = 1
               \<and> coefficient r (Node 2) = 0))"
proof -
  let ?w = "\<lparr>parent = ''ambient space'',
             monomial_coefficients = [(Node 0, 1), (Node 1, 1 :: int)]\<rparr>"
  have d: "\<not> dual_side (root_system A2_space)" by (simp add: A2_space_def A2_def)
  have cw: "dual_side (root_system (A2_space\<lparr>root_system := A2\<lparr>dual_side := True\<rparr>\<rparr>))"
    by simp
  then have u: "to_ambient_space_morphism (A2_space\<lparr>root_system := A2\<lparr>dual_side := True\<rparr>\<rparr>)
         ''ambient space'' A2_ambient_weights = Inl UnsupportedOperation"
    using to_ambient_space_morphism_cases
      [of "A2_space\<lparr>root_system := A2\<lparr>dual_side := True\<rparr>\<rparr>" "''ambient space''"
          A2_ambient_weights]
    by blast
  have b: "A2_ambient_weights (Node 2) = Some ?w" by (simp add: A2_ambient_weights_def)
  have dk: "distinct_keys ?w" by (simp add: distinct_keys_def)
  from to_ambient_space_morphism_cases [of A2_space "''ambient space''" A2_ambient_weights] d
  obtain m where m: "to_ambient_space_morphism A2_space ''ambient space'' A2_ambient_weights = Inr m"
    and all: "\<forall>i w. A2_ambient_weights i = Some w \<longrightarrow>
                      on_basis m i = Inr w
                    \<and> (distinct_keys w \<longrightarrow>
                         (\<exists>r. apply_morphism m (monomial A2_space i) = Inr r
                            \<and> parent r = parent w
                            \<and> (\<forall>k. coefficient r k = coefficient w k)))"
    by blast
  from all b dk have ob: "on_basis m (Node 2) = Inr ?w"
    and "\<exists>r. apply_morphism m (monomial A2_space (Node 2)) = Inr r
                            \<and> parent r = parent ?w
                            \<and> (\<forall>k. coefficient r k = coefficient ?w k)"
    by blast+
  then obtain r where r: "apply_morphism m (monomial A2_space (Node 2)) = Inr r"
    and c: "\<forall>k. coefficient r k = coefficient ?w k" by blast
  from c have "coefficient r (Node 0) = 1 \<and> coefficient r (Node 1) = 1
               \<and> coefficient r (Node 2) = 0"
    by (simp add: coefficient_def coefficient_in_def)
  with cw u d b dk m ob r show ?thesis by blast
qed

text \<open>
  C4: for all \<open>i\<close> and \<open>j\<close> in the index set,
  \<open>fundamental_weight(i).scalar(simple_coroot(j))\<close> is 1 when \<open>i = j\<close> and 0 otherwise;
  the simple coroot is an element of the coroot lattice \<open>Q\<close>, which the membership
  test of the root system accepts.
\<close>

theorem fundamental_weight_scalar_simple_coroot:
  fixes P :: "('p, 'a::semiring_1) element weight_space" and Q :: 'p
  assumes "coroot_lattice (root_system P) (simple_coroot Q j :: ('p, 'a) element)"
  shows "i \<in> set (index_set (root_system P)) \<and> j \<in> set (index_set (root_system P)) \<longrightarrow>
           (\<exists>w. fundamental_weight P (Node i) = Inr w
               \<and> scalar w (simple_coroot Q j :: ('p, 'a) element)
                   = Inr (if i = j then 1 else 0))"
proof
  assume ij: "i \<in> set (index_set (root_system P)) \<and> j \<in> set (index_set (root_system P))"
  let ?w = "monomial P (Node i) :: (('p, 'a) element weight_space, 'a) element"
  have fw: "fundamental_weight P (Node i) = Inr ?w"
    using ij by (simp add: fundamental_weight_def)
  have "scalar ?w (simple_coroot Q j :: ('p, 'a) element) = Inr (if i = j then 1 else 0)"
    using assms
    by (simp add: scalar_def sum_over_lambdacheck_def py_sum_def simple_coroot_def
        monomial_def coefficient_def coefficient_in_def)
  with fw show "\<exists>w. fundamental_weight P (Node i) = Inr w
               \<and> scalar w (simple_coroot Q j :: ('p, 'a) element)
                   = Inr (if i = j then 1 else 0)"
    by blast
qed

theorem fundamental_weight_scalar_simple_coroot_witness:
  "coroot_lattice (root_system (A21_space False))
      (simple_coroot ''coroot lattice'' 1 :: (string, int) element)
   \<and> 1 \<in> set (index_set (root_system (A21_space False)))
   \<and> 2 \<in> set (index_set (root_system (A21_space False)))
   \<and> (\<exists>w. fundamental_weight (A21_space False) (Node 1) = Inr w
         \<and> scalar w (simple_coroot ''coroot lattice'' 1 :: (string, int) element) = Inr 1)
   \<and> (\<exists>w. fundamental_weight (A21_space False) (Node 2) = Inr w
         \<and> scalar w (simple_coroot ''coroot lattice'' 1 :: (string, int) element) = Inr 0)"
proof -
  have m: "coroot_lattice (root_system (A21_space False))
      (simple_coroot ''coroot lattice'' 1 :: (string, int) element)"
    by (simp add: A21_space_def A21_def simple_coroot_def monomial_def)
  have i: "1 \<in> set (index_set (root_system (A21_space False)))"
    "2 \<in> set (index_set (root_system (A21_space False)))"
    by (simp_all add: A21_space_def A21_def)
  from fundamental_weight_scalar_simple_coroot [OF m, of 1] i
  have one: "\<exists>w. fundamental_weight (A21_space False) (Node 1) = Inr w
         \<and> scalar w (simple_coroot ''coroot lattice'' 1 :: (string, int) element) = Inr 1"
    by simp
  from fundamental_weight_scalar_simple_coroot [OF m, of 2] i
  have two: "\<exists>w. fundamental_weight (A21_space False) (Node 2) = Inr w
         \<and> scalar w (simple_coroot ''coroot lattice'' 1 :: (string, int) element) = Inr 0"
    by simp
  from m i one two show ?thesis by blast
qed

text \<open>
  C5: the quotient coercion from the extended space is registered exactly when the
  model has \<open>extended = false\<close> and the Cartan type is affine. Its domain is the extended
  space and its codomain the model; it sends the basis vector \<open>i\<close> of the extended space
  to the fundamental weight \<open>i\<close> of the model, the "delta" monomial to zero, and an
  element of the extended space to the element with the same coefficients at the nodes
  and none at "delta".
\<close>

theorem quotient_coercion:
  fixes rs :: "'y root_system"
    and P :: "'y weight_space"
    and m :: "('y weight_space, 'y weight_space, 'a::semiring_1) module_morphism option"
  assumes "init rs ext = Inr (P, m)"
  shows "(m \<noteq> None \<longleftrightarrow> \<not> ext \<and> is_affine rs)
       \<and> (\<forall>q. m = Some q \<longrightarrow>
            construct rs True = Inr (domain q) \<and> codomain q = P
          \<and> (\<forall>i \<in> set (index_set rs).
                apply_morphism q (monomial (domain q) (Node i)) = fundamental_weight P (Node i)
              \<and> apply_morphism q (monomial (domain q) (Node i)) = Inr (monomial P (Node i)))
          \<and> apply_morphism q (monomial (domain q) Delta) = Inr (zero P)
          \<and> (\<forall>x. distinct_keys x
                  \<and> fst ` set (monomial_coefficients x) \<subseteq> set (basis_keys (domain q)) \<longrightarrow>
                (\<exists>r. apply_morphism q x = Inr r \<and> parent r = P
                    \<and> coefficient r Delta = 0
                    \<and> (\<forall>i. coefficient r (Node i) = coefficient x (Node i)))))"
proof -
  have registered: "m \<noteq> None \<longleftrightarrow> \<not> ext \<and> is_affine rs"
    using assms by (auto simp: init_def construct_def split: sum.splits if_splits)
  have morphism: "construct rs True = Inr (domain q) \<and> codomain q = P
          \<and> (\<forall>i \<in> set (index_set rs).
                apply_morphism q (monomial (domain q) (Node i)) = fundamental_weight P (Node i)
              \<and> apply_morphism q (monomial (domain q) (Node i)) = Inr (monomial P (Node i)))
          \<and> apply_morphism q (monomial (domain q) Delta) = Inr (zero P)
          \<and> (\<forall>x. distinct_keys x
                  \<and> fst ` set (monomial_coefficients x) \<subseteq> set (basis_keys (domain q)) \<longrightarrow>
                (\<exists>r. apply_morphism q x = Inr r \<and> parent r = P
                    \<and> coefficient r Delta = 0
                    \<and> (\<forall>i. coefficient r (Node i) = coefficient x (Node i))))"
    if q: "m = Some q" for q
  proof -
    from assms q have aff: "is_affine rs" and ext: "\<not> ext"
      by (auto simp: init_def construct_def split: sum.splits if_splits)
    from assms q aff ext have P: "P = \<lparr>root_system = rs, extended = False,
        basis_keys = map Node (index_set rs)\<rparr>"
      and qd: "q = \<lparr>domain = \<lparr>root_system = rs, extended = True,
                              basis_keys = map Node (index_set rs) @ [Delta]\<rparr>,
                   codomain = P, on_basis = fundamental_weight P\<rparr>"
      by (auto simp: init_def construct_def)
    have rsP: "root_system P = rs" and exP: "\<not> extended P" by (simp_all add: P)
    have dom: "construct rs True = Inr (domain q)" using aff by (simp add: qd construct_def)
    have cod: "codomain q = P" by (simp add: qd)
    have delta: "apply_morphism q (monomial (domain q) Delta) = Inr (zero P)"
      using aff exP rsP
      by (simp add: qd apply_morphism_def monomial_def fundamental_weight_def
          add_def scale_def zero_def remove_zeros_def add_terms_def)
    have nodes: "apply_morphism q (monomial (domain q) (Node i)) = fundamental_weight P (Node i)
              \<and> apply_morphism q (monomial (domain q) (Node i)) = Inr (monomial P (Node i))"
      if i: "i \<in> set (index_set rs)" for i
    proof -
      have fw: "(fundamental_weight P (Node i) :: error + ('y weight_space, 'a) element)
          = Inr (monomial P (Node i))"
        using i rsP by (simp add: fundamental_weight_def)
      have ap: "apply_morphism q (monomial (domain q) (Node i))
          = Inr (monomial P (Node i))"
        using fw
        by (simp add: qd apply_morphism_def monomial_def
            add_def scale_def zero_def remove_zeros_def add_terms_def)
      show ?thesis using fw ap by simp
    qed
    have linear: "\<exists>r. apply_morphism q x = Inr r \<and> parent r = P
                    \<and> coefficient r Delta = 0
                    \<and> (\<forall>i. coefficient r (Node i) = coefficient x (Node i))"
      if x: "distinct_keys x
                  \<and> fst ` set (monomial_coefficients x) \<subseteq> set (basis_keys (domain q))"
      for x :: "('y weight_space, 'a) element"
    proof -
      define g :: "key \<Rightarrow> ('y weight_space, 'a) element"
        where "g k = (if k = Delta then zero P else monomial P k)" for k
      have "\<And>k. k \<in> fst ` set (monomial_coefficients x) \<Longrightarrow>
          fundamental_weight P k = Inr (g k) \<and> distinct_keys (g k) \<and> parent (g k) = P"
      proof -
        fix k assume "k \<in> fst ` set (monomial_coefficients x)"
        with x have "k \<in> set (map Node (index_set (root_system P)) @ [Delta])"
          by (auto simp: qd rsP)
        from fundamental_weight_on_basis [OF _ exP this] aff rsP
        have "(fundamental_weight P k :: error + ('y weight_space, 'a) element) = Inr (g k)"
          by (simp add: g_def)
        moreover have "distinct_keys (g k)"
          by (simp add: g_def distinct_keys_zero distinct_keys_monomial)
        moreover have "parent (g k) = P"
          by (simp add: g_def zero_def monomial_def)
        ultimately show "fundamental_weight P k = Inr (g k) \<and> distinct_keys (g k)
            \<and> parent (g k) = P"
          by simp
      qed
      from linear_extension_total
        [of "monomial_coefficients x" "fundamental_weight P" g P, OF this]
      obtain r where
        r: "linear_extension (fundamental_weight P) P (monomial_coefficients x) = Inr r"
        and pr: "parent r = P"
        and cr: "\<forall>k'. coefficient r k'
            = sum_list (map (\<lambda>(k, c). c * coefficient (g k) k') (monomial_coefficients x))"
        by blast
      have summand: "c * coefficient (g k) k' = (if k = k' \<and> k' \<noteq> Delta then c else 0)"
        for k k' and c :: 'a
        by (auto simp: g_def coefficient_zero coefficient_monomial)
      have zeros: "sum_list (map (\<lambda>(k, c). 0 :: 'a) d) = 0" for d :: "(key \<times> 'a) list"
        by (induction d) auto
      have "coefficient r Delta = 0"
        using cr by (simp add: summand zeros)
      moreover have "coefficient r (Node i) = coefficient x (Node i)" for i
      proof -
        have "coefficient r (Node i)
            = sum_list (map (\<lambda>(k, c). if k = Node i then c else 0) (monomial_coefficients x))"
          using cr by (simp add: summand)
        also have "\<dots> = coefficient x (Node i)"
          using x by (simp add: sum_list_key_terms distinct_keys_def coefficient_def)
        finally show ?thesis .
      qed
      ultimately show ?thesis
        using r pr by (simp add: apply_morphism_def qd)
    qed
    from dom cod delta nodes linear show ?thesis by blast
  qed
  from registered morphism show ?thesis by blast
qed

theorem quotient_coercion_witness:
  "(init A21 False :: error + ((string, int) element weight_space \<times>
       ((string, int) element weight_space, (string, int) element weight_space, int)
         module_morphism option))
     = Inr (A21_space False,
            Some \<lparr>domain = A21_space True, codomain = A21_space False,
                  on_basis = fundamental_weight (A21_space False)\<rparr>)
   \<and> 1 \<in> set (index_set A21)
   \<and> apply_morphism
        \<lparr>domain = A21_space True, codomain = A21_space False,
         on_basis = fundamental_weight (A21_space False)\<rparr>
        (monomial (A21_space True) (Node 1))
       = Inr (monomial (A21_space False) (Node 1)
               :: ((string, int) element weight_space, int) element)
   \<and> apply_morphism
        \<lparr>domain = A21_space True, codomain = A21_space False,
         on_basis = fundamental_weight (A21_space False)\<rparr>
        (monomial (A21_space True) Delta)
       = Inr (zero (A21_space False) :: ((string, int) element weight_space, int) element)
   \<and> (init A21 True :: error + ((string, int) element weight_space \<times>
       ((string, int) element weight_space, (string, int) element weight_space, int)
         module_morphism option))
     = Inr (A21_space True, None)
   \<and> (init A2 False :: error + ((string, int) element weight_space \<times>
       ((string, int) element weight_space, (string, int) element weight_space, int)
         module_morphism option))
     = Inr (A2_space, None)"
proof -
  let ?q = "\<lparr>domain = A21_space True, codomain = A21_space False,
             on_basis = fundamental_weight (A21_space False)\<rparr>
           :: ((string, int) element weight_space, (string, int) element weight_space, int)
                module_morphism"
  have i: "init A21 False = Inr (A21_space False, Some ?q)"
    by (simp add: init_def construct_def A21_space_def A21_def)
  have n: "1 \<in> set (index_set A21)" by (simp add: A21_def)
  have e: "(init A21 True :: error + ((string, int) element weight_space \<times>
       ((string, int) element weight_space, (string, int) element weight_space, int)
         module_morphism option))
     = Inr (A21_space True, None)"
    by (simp add: init_def construct_def A21_space_def A21_def)
  have f: "(init A2 False :: error + ((string, int) element weight_space \<times>
       ((string, int) element weight_space, (string, int) element weight_space, int)
         module_morphism option))
     = Inr (A2_space, None)"
    by (simp add: init_def construct_def A2_space_def A2_def)
  from quotient_coercion [OF i] n i e f quotient_coercion [OF e] quotient_coercion [OF f]
  show ?thesis by auto
qed

text \<open>
  C1: for every \<open>j\<close> in the index set, \<open>simple_root(j)\<close> is the linear combination,
  over column \<open>j\<close> of the Cartan matrix, of coefficient times \<open>fundamental_weight(i)\<close>,
  with the basis monomial for "delta" added exactly when the model is extended and \<open>j\<close>
  is the special node: the two elements have the same parent and the same items. For
  every \<open>j\<close> outside the index set, \<open>simple_root(j)\<close> fails with InvalidKey. The column
  is a mapping from elements of the index set to integers.
\<close>

theorem simple_root_linear_combination:
  fixes P :: "'y weight_space"
  assumes "fst ` set (column (root_system P) j) \<subseteq> set (index_set (root_system P))"
  shows "(j \<in> set (index_set (root_system P)) \<longrightarrow>
           (\<exists>r s. (simple_root P (Node j) :: error + ('y weight_space, 'a::ring_1) element) = Inr r
               \<and> simple_root_by_fundamental_weights P (Node j) = Inr s
               \<and> parent r = P \<and> parent s = P
               \<and> distinct_keys r \<and> distinct_keys s
               \<and> set (monomial_coefficients r) = set (monomial_coefficients s)
               \<and> (\<forall>k. coefficient r k
                     = sum_list (map (\<lambda>(i, c). if Node i = k then of_int c else 0)
                                     (column (root_system P) j))
                       + (if extended P \<and> j = special_node (root_system P) \<and> k = Delta
                          then 1 else 0))))
       \<and> (\<not> in_index_set P i \<longrightarrow>
            (simple_root P i :: error + ('y weight_space, 'a) element) = Inl (InvalidKey i))"
proof (intro conjI impI)
  assume "\<not> in_index_set P i"
  then show "(simple_root P i :: error + ('y weight_space, 'a) element) = Inl (InvalidKey i)"
    by (cases i) simp_all
next
  assume j: "j \<in> set (index_set (root_system P))"
  let ?col = "column (root_system P) j"
  let ?terms = "map (\<lambda>(i, c). (Node i, of_int c)) ?col :: (key \<times> 'a) list"
  define deformed where "deformed \<longleftrightarrow> extended P \<and> j = special_node (root_system P)"
  let ?result = "sum_of_terms P ?terms"
  let ?r = "if deformed then add ?result (monomial P Delta) else ?result"
  have "sum_list (map (\<lambda>(k', c). if k' = k then c else 0)
            (map (\<lambda>(i, c). (Node i, of_int c)) col :: (key \<times> 'a) list))
      = sum_list (map (\<lambda>(i, c). if Node i = k then of_int c else 0) col)"
    for k and col :: "(int \<times> int) list"
    by (induction col) auto
  then have colsum: "sum_list (map (\<lambda>(k', c). if k' = k then c else 0) ?terms)
      = sum_list (map (\<lambda>(i, c). if Node i = k then of_int c else 0) ?col)" for k
    by blast
  have r: "simple_root P (Node j) = Inr ?r"
    using j by (simp add: Let_def deformed_def)
  have cres: "coefficient ?result k
      = sum_list (map (\<lambda>(i, c). if Node i = k then of_int c else 0) ?col)" for k
    by (simp only: coefficient_sum_of_terms colsum)
  have "\<And>k. k \<in> fst ` set ?terms \<Longrightarrow>
      fundamental_weight P k = Inr (monomial P k) \<and> distinct_keys (monomial P k :: ('y weight_space, 'a) element)
        \<and> parent (monomial P k :: ('y weight_space, 'a) element) = P"
  proof -
    fix k assume "k \<in> fst ` set ?terms"
    then obtain i where "k = Node i" and "i \<in> fst ` set ?col" by force
    with assms have "k = Node i" and "i \<in> set (index_set (root_system P))" by auto
    then show "fundamental_weight P k = Inr (monomial P k)
        \<and> distinct_keys (monomial P k :: ('y weight_space, 'a) element)
        \<and> parent (monomial P k :: ('y weight_space, 'a) element) = P"
      by (simp add: fundamental_weight_def distinct_keys_def monomial_def)
  qed
  from linear_extension_total [of ?terms "fundamental_weight P" "monomial P" P, OF this]
  obtain s0 :: "('y weight_space, 'a) element" where
    s0: "linear_extension (fundamental_weight P) P ?terms = Inr s0"
    and ps0: "parent s0 = P" and ds0: "distinct_keys s0" and zs0: "no_zeros s0"
    and cs0: "\<forall>k'. coefficient s0 k'
        = sum_list (map (\<lambda>(k, c). c * coefficient (monomial P k :: ('y weight_space, 'a) element) k') ?terms)"
    by blast
  let ?s = "if deformed then add s0 (monomial P Delta) else s0"
  have s: "simple_root_by_fundamental_weights P (Node j) = Inr ?s"
    using j s0 by (simp add: deformed_def)
  have summand: "c * coefficient (monomial P k :: ('y weight_space, 'a) element) k'
      = (if k = k' then c else 0)" for k k' and c :: 'a
    by (auto simp: coefficient_monomial)
  have cs0': "coefficient s0 k
      = sum_list (map (\<lambda>(i, c). if Node i = k then of_int c else 0) ?col)" for k
    using cs0 by (simp only: summand colsum)
  have cr: "coefficient ?r k
      = sum_list (map (\<lambda>(i, c). if Node i = k then of_int c else 0) ?col)
        + (if deformed \<and> k = Delta then 1 else 0)" for k
    by (simp add: coefficient_add distinct_keys_sum_of_terms distinct_keys_monomial
        coefficient_monomial cres)
  have cs: "coefficient ?s k
      = sum_list (map (\<lambda>(i, c). if Node i = k then of_int c else 0) ?col)
        + (if deformed \<and> k = Delta then 1 else 0)" for k
    using ds0
    by (simp add: coefficient_add distinct_keys_monomial coefficient_monomial cs0')
  have dr: "distinct_keys ?r"
    by (simp add: distinct_keys_add distinct_keys_sum_of_terms)
  have ds: "distinct_keys ?s"
    using ds0 by (simp add: distinct_keys_add)
  have zr: "no_zeros ?r" by (simp add: no_zeros_add no_zeros_sum_of_terms)
  have zs: "no_zeros ?s" using zs0 by (simp add: no_zeros_add)
  have pr: "parent ?r = P" by (simp add: parent_add sum_of_terms_def)
  have ps: "parent ?s = P" using ps0 by (simp add: parent_add)
  have items: "set (monomial_coefficients ?r) = set (monomial_coefficients ?s)"
    using dr zr ds zs
  proof (rule same_items)
    fix k show "coefficient ?r k = coefficient ?s k"
      by (simp only: cr cs)
  qed
  have "\<forall>k. coefficient ?r k
      = sum_list (map (\<lambda>(i, c). if Node i = k then of_int c else 0) ?col)
        + (if extended P \<and> j = special_node (root_system P) \<and> k = Delta then 1 else 0)"
    using cr by (simp add: deformed_def)
  with r s pr ps dr ds items
  show "\<exists>r s. (simple_root P (Node j) :: error + ('y weight_space, 'a::ring_1) element) = Inr r
               \<and> simple_root_by_fundamental_weights P (Node j) = Inr s
               \<and> parent r = P \<and> parent s = P
               \<and> distinct_keys r \<and> distinct_keys s
               \<and> set (monomial_coefficients r) = set (monomial_coefficients s)
               \<and> (\<forall>k. coefficient r k
                     = sum_list (map (\<lambda>(i, c). if Node i = k then of_int c else 0)
                                     (column (root_system P) j))
                       + (if extended P \<and> j = special_node (root_system P) \<and> k = Delta
                          then 1 else 0))"
    by blast
qed

theorem simple_root_linear_combination_witness:
  "fst ` set (column (root_system (A21_space True)) 0)
     \<subseteq> set (index_set (root_system (A21_space True)))
   \<and> 0 \<in> set (index_set (root_system (A21_space True)))
   \<and> \<not> in_index_set (A21_space True) (Node 7)
   \<and> (simple_root (A21_space True) (Node 0)
        :: error + ((string, int) element weight_space, int) element)
       = Inr \<lparr>parent = A21_space True,
              monomial_coefficients = [(Node 0, 2), (Node 1, - 1), (Node 2, - 1), (Delta, 1)]\<rparr>
   \<and> (\<exists>s. (simple_root_by_fundamental_weights (A21_space True) (Node 0)
              :: error + ((string, int) element weight_space, int) element) = Inr s
         \<and> set (monomial_coefficients s)
             = {(Node 0, 2), (Node 1, - 1), (Node 2, - 1), (Delta, 1)})
   \<and> (simple_root (A21_space True) (Node 7)
        :: error + ((string, int) element weight_space, int) element)
       = Inl (InvalidKey (Node 7))"
proof -
  let ?P = "A21_space True"
  have col: "fst ` set (column (root_system ?P) 0) \<subseteq> set (index_set (root_system ?P))"
    by (simp add: A21_space_def A21_def)
  have j: "0 \<in> set (index_set (root_system ?P))"
    and i: "\<not> in_index_set ?P (Node 7)"
    by (simp_all add: A21_space_def A21_def)
  have v: "(simple_root ?P (Node 0) :: error + ((string, int) element weight_space, int) element)
       = Inr \<lparr>parent = ?P,
              monomial_coefficients = [(Node 0, 2), (Node 1, - 1), (Node 2, - 1), (Delta, 1)]\<rparr>"
    by (simp add: A21_space_def A21_def sum_of_terms_def add_def monomial_def
        add_terms_def remove_zeros_def)
  note T = simple_root_linear_combination [OF col, of "Node 7", where 'a = int]
  have e: "(simple_root ?P (Node 7) :: error + ((string, int) element weight_space, int) element)
      = Inl (InvalidKey (Node 7))"
    using T [THEN conjunct2] i by (rule mp)
  have "\<exists>r s. (simple_root ?P (Node 0)
                 :: error + ((string, int) element weight_space, int) element) = Inr r
             \<and> simple_root_by_fundamental_weights ?P (Node 0) = Inr s
             \<and> set (monomial_coefficients r) = set (monomial_coefficients s)"
    using T [THEN conjunct1, THEN mp, OF j] by blast
  then obtain r s :: "((string, int) element weight_space, int) element" where
    r: "simple_root ?P (Node 0) = Inr r"
    and s: "simple_root_by_fundamental_weights ?P (Node 0) = Inr s"
    and rs: "set (monomial_coefficients r) = set (monomial_coefficients s)"
    by blast
  from r v have "monomial_coefficients r
      = [(Node 0, 2), (Node 1, - 1), (Node 2, - 1), (Delta, 1)]"
    by simp
  with rs have "set (monomial_coefficients s)
             = {(Node 0, 2), (Node 1, - 1), (Node 2, - 1), (Delta, 1)}"
    by simp
  with col j i v s e show ?thesis by blast
qed

end
